theory Spec2Isabelle
  imports Main "HOL-Library.AList"
begin

section \<open>Values\<close>

text \<open>
  The module \<^verbatim>\<open>functions_utils.py\<close> rewrites JSON-Schema dictionaries
  (\<^verbatim>\<open>Dict[str, Any]\<close>). A value of Python's \<^verbatim>\<open>Any\<close> is modelled by the JSON
  values below. A \<^verbatim>\<open>dict\<close> is an association list in insertion order, which is
  the order \<^verbatim>\<open>items()\<close> iterates in; a Python dict holds every key once.
  Floating-point numbers are left out: the module copies them as it copies every
  other scalar.
\<close>

datatype json =
    JNull
  | JBool bool
  | JInt int
  | JStr string
  | JList "json list"
  | JDict "(string \<times> json) list"

type_synonym schema = "(string \<times> json) list"

text \<open>
  Exceptions are values. \<open>ValueError_allOf a\<close> is the \<^verbatim>\<open>ValueError\<close> of line 110
  (its message shows the offending value \<open>a\<close>), \<open>ValueError_generation\<close> the
  \<^verbatim>\<open>ValueError\<close> of line 188, \<open>OutputParserException\<close> carries its message
  text. \<open>ValidationError\<close> and \<open>JSONDecodeError\<close> are raised by library code only.
\<close>

datatype error =
    ValueError_allOf json
  | ValueError_generation
  | TypeError
  | AttributeError
  | KeyError json
  | IndexError
  | OutputParserException string
  | ValidationError
  | JSONDecodeError

text \<open>Truth value of a Python object in a condition (\<^verbatim>\<open>if x:\<close>, \<^verbatim>\<open>x or y\<close>).\<close>

fun truthy :: "json \<Rightarrow> bool" where
  "truthy JNull = False"
| "truthy (JBool b) = b"
| "truthy (JInt i) = (i \<noteq> 0)"
| "truthy (JStr s) = (s \<noteq> [])"
| "truthy (JList xs) = (xs \<noteq> [])"
| "truthy (JDict d) = (d \<noteq> [])"

text \<open>\<^verbatim>\<open>d.get(k, default)\<close> and \<^verbatim>\<open>d[k]\<close>.\<close>

definition dict_get :: "schema \<Rightarrow> string \<Rightarrow> json \<Rightarrow> json" where
  "dict_get d k dflt = (case map_of d k of None \<Rightarrow> dflt | Some v \<Rightarrow> v)"

definition dict_item :: "schema \<Rightarrow> string \<Rightarrow> error + json" where
  "dict_item d k = (case map_of d k of None \<Rightarrow> Inl (KeyError (JStr k)) | Some v \<Rightarrow> Inr v)"

text \<open>
  \<^verbatim>\<open>" ".join((a, b))\<close>: both items must be strings, anything else is a
  \<^verbatim>\<open>TypeError\<close>.
\<close>

fun join_space :: "json \<Rightarrow> json \<Rightarrow> error + json" where
  "join_space (JStr a) (JStr b) = Inr (JStr (a @ '' '' @ b))"
| "join_space _ _ = Inl TypeError"

text \<open>
  \<^verbatim>\<open>dict(x)\<close> copies a mapping, and makes the empty dict of an empty list or
  string. The members of an \<^verbatim>\<open>allOf\<close> list are schemas; on any other value
  \<^verbatim>\<open>TypeError\<close> stands for the failure (Python raises \<^verbatim>\<open>TypeError\<close> or
  \<^verbatim>\<open>ValueError\<close> there, unless the value happens to be a sequence of key/value
  pairs, which no schema generator puts under \<^verbatim>\<open>allOf\<close>). Every statement below
  that depends on the copy names a mapping as the member.
\<close>

fun py_dict :: "json \<Rightarrow> error + schema" where
  "py_dict (JDict d) = Inr d"
| "py_dict (JList []) = Inr []"
| "py_dict (JStr []) = Inr []"
| "py_dict v = Inl TypeError"

section \<open>The allOf flattener\<close>

text \<open>
  Lines 103 to 108: the member of a singleton \<^verbatim>\<open>allOf\<close> is copied, then
  \<^verbatim>\<open>obj["title"]\<close> and \<^verbatim>\<open>obj["description"]\<close> are assigned in this order. An
  assignment to a key the copy has keeps the key's place, else the key is appended:
  this is \<^const>\<open>AList.update\<close>.
\<close>

definition merge_all_of :: "schema \<Rightarrow> json \<Rightarrow> error + json" where
  "merge_all_of v member =
     (case py_dict member of
        Inl e \<Rightarrow> Inl e
      | Inr obj \<Rightarrow>
          (let obj1 = AList.update ''title''
                        (dict_get v ''title'' (dict_get obj ''title'' (JStr ''''))) obj
           in case join_space (dict_get v ''description'' (JStr ''''))
                              (dict_get obj1 ''description'' (JStr '''')) of
                Inl e \<Rightarrow> Inl e
              | Inr s \<Rightarrow> Inr (JDict (AList.update ''description'' s obj1))))"

text \<open>
  \<^verbatim>\<open>_replace_all_ofs\<close> (lines 97 to 119). \<open>replace_all_ofs\<close> is the loop over
  \<^verbatim>\<open>schema.items()\<close>: the keys of a dict are distinct, so each
  \<^verbatim>\<open>new_schema[k] = ...\<close> appends an entry, and the first exception ends the
  loop. \<open>replace_value\<close> is the loop body's choice of the new value for one
  \<^verbatim>\<open>v\<close>, \<open>replace_elems\<close> the list comprehension of line 116, where
  \<^verbatim>\<open>_replace_all_ofs(s)\<close> on an \<^verbatim>\<open>s\<close> that is not a dict has no
  \<^verbatim>\<open>items\<close> attribute.
\<close>

fun replace_all_ofs :: "schema \<Rightarrow> error + schema"
  and replace_value :: "json \<Rightarrow> error + json"
  and replace_elems :: "json list \<Rightarrow> error + json list"
where
  "replace_all_ofs [] = Inr []"
| "replace_all_ofs ((k, v) # rest) =
     (case replace_value v of
        Inl e \<Rightarrow> Inl e
      | Inr v' \<Rightarrow> (case replace_all_ofs rest of
                     Inl e \<Rightarrow> Inl e
                   | Inr rest' \<Rightarrow> Inr ((k, v') # rest')))"
| "replace_value (JDict d) =
     (case map_of d ''allOf'' of
        Some a \<Rightarrow> (case a of
                     JList [member] \<Rightarrow> merge_all_of d member
                   | _ \<Rightarrow> Inl (ValueError_allOf a))
      | None \<Rightarrow> (case replace_all_ofs d of
                   Inl e \<Rightarrow> Inl e
                 | Inr d' \<Rightarrow> Inr (JDict d')))"
| "replace_value (JList xs) =
     (case xs of
        JDict d # rest \<Rightarrow> (case replace_elems xs of
                             Inl e \<Rightarrow> Inl e
                           | Inr ys \<Rightarrow> Inr (JList ys))
      | _ \<Rightarrow> Inr (JList xs))"
| "replace_value v = Inr v"
| "replace_elems [] = Inr []"
| "replace_elems (x # xs) =
     (case x of
        JDict d \<Rightarrow> (case replace_all_ofs d of
                      Inl e \<Rightarrow> Inl e
                    | Inr d' \<Rightarrow> (case replace_elems xs of
                                   Inl e \<Rightarrow> Inl e
                                 | Inr ys \<Rightarrow> Inr (JDict d' # ys)))
      | _ \<Rightarrow> Inl AttributeError)"

subsection \<open>Shapes of schemas the statements speak about\<close>

text \<open>A mapping with the key \<^verbatim>\<open>allOf\<close> occurs somewhere in the value, at any depth.\<close>

fun all_of_in_schema :: "schema \<Rightarrow> bool"
  and all_of_in_value :: "json \<Rightarrow> bool"
  and all_of_in_list :: "json list \<Rightarrow> bool"
where
  "all_of_in_schema [] = False"
| "all_of_in_schema ((k, v) # rest) =
     (k = ''allOf'' \<or> all_of_in_value v \<or> all_of_in_schema rest)"
| "all_of_in_value (JDict d) = all_of_in_schema d"
| "all_of_in_value (JList xs) = all_of_in_list xs"
| "all_of_in_value v = False"
| "all_of_in_list [] = False"
| "all_of_in_list (x # xs) = (all_of_in_value x \<or> all_of_in_list xs)"

text \<open>
  Every list the flattener enters holds mappings only. The flattener enters a list when
  its first element is a mapping (line 115); it reaches the list through the values of
  mappings and through the elements of the lists it has entered.
\<close>

fun uniform_schema :: "schema \<Rightarrow> bool"
  and uniform_value :: "json \<Rightarrow> bool"
  and uniform_elems :: "json list \<Rightarrow> bool"
where
  "uniform_schema [] = True"
| "uniform_schema ((k, v) # rest) = (uniform_value v \<and> uniform_schema rest)"
| "uniform_value (JDict d) = uniform_schema d"
| "uniform_value (JList xs) =
     (case xs of JDict d # rest \<Rightarrow> uniform_elems xs | _ \<Rightarrow> True)"
| "uniform_value v = True"
| "uniform_elems [] = True"
| "uniform_elems (x # xs) =
     (case x of JDict d \<Rightarrow> uniform_schema d \<and> uniform_elems xs | _ \<Rightarrow> False)"

text \<open>
  A mapping value whose \<^verbatim>\<open>allOf\<close> is not a list of one element stands where the
  flattener looks at it: among the values of the schema, of a mapping value that has no
  \<^verbatim>\<open>allOf\<close> key, or of a mapping in a list whose first element is a mapping. A list
  whose first element is not a mapping hides what it holds (the guard of line 115).
  What lies inside a mapping value that holds a singleton \<^verbatim>\<open>allOf\<close> is not counted,
  nor is the \<^verbatim>\<open>allOf\<close> of a mapping that is itself an element of a list: the
  statements below leave open what the flattener does with them.
\<close>

fun singleton_list :: "json \<Rightarrow> bool" where
  "singleton_list (JList [member]) = True"
| "singleton_list a = False"

fun meets_bad_schema :: "schema \<Rightarrow> bool"
  and meets_bad_value :: "json \<Rightarrow> bool"
  and meets_bad_elems :: "json list \<Rightarrow> bool"
where
  "meets_bad_schema [] = False"
| "meets_bad_schema ((k, v) # rest) = (meets_bad_value v \<or> meets_bad_schema rest)"
| "meets_bad_value (JDict d) =
     (case map_of d ''allOf'' of
        Some a \<Rightarrow> \<not> singleton_list a
      | None \<Rightarrow> meets_bad_schema d)"
| "meets_bad_value (JList xs) =
     (case xs of JDict d # rest \<Rightarrow> meets_bad_elems xs | _ \<Rightarrow> False)"
| "meets_bad_value v = False"
| "meets_bad_elems [] = False"
| "meets_bad_elems (x # xs) =
     (case x of JDict d \<Rightarrow> meets_bad_schema d \<or> meets_bad_elems xs | _ \<Rightarrow> False)"

text \<open>
  The entries the traversal meets are typed as a schema generator types them: the member
  of a singleton \<^verbatim>\<open>allOf\<close> is a mapping, the descriptions joined at line 105 are
  strings where present, and a list entered at line 116 holds mappings only. On such a
  schema neither \<^verbatim>\<open>TypeError\<close> nor \<^verbatim>\<open>AttributeError\<close> can be raised.
\<close>

fun is_str :: "json \<Rightarrow> bool" where
  "is_str (JStr s) = True"
| "is_str v = False"

fun typed_member :: "schema \<Rightarrow> json \<Rightarrow> bool" where
  "typed_member d (JList [JDict inner]) =
     (is_str (dict_get d ''description'' (JStr '''')) \<and>
      is_str (dict_get inner ''description'' (JStr '''')))"
| "typed_member d (JList [member]) = False"
| "typed_member d a = True"

fun typed_schema :: "schema \<Rightarrow> bool"
  and typed_value :: "json \<Rightarrow> bool"
  and typed_elems :: "json list \<Rightarrow> bool"
where
  "typed_schema [] = True"
| "typed_schema ((k, v) # rest) = (typed_value v \<and> typed_schema rest)"
| "typed_value (JDict d) =
     (case map_of d ''allOf'' of
        Some a \<Rightarrow> typed_member d a
      | None \<Rightarrow> typed_schema d)"
| "typed_value (JList xs) =
     (case xs of JDict d # rest \<Rightarrow> typed_elems xs | _ \<Rightarrow> True)"
| "typed_value v = True"
| "typed_elems [] = True"
| "typed_elems (x # xs) =
     (case x of JDict d \<Rightarrow> typed_schema d \<and> typed_elems xs | _ \<Rightarrow> False)"

text \<open>
  Such a value comes first: every entry the flattener visits before it is typed as
  above and shows no malformed \<^verbatim>\<open>allOf\<close>, so that nothing is raised before the
  flattener gets to it.
\<close>

fun malformed_first_schema :: "schema \<Rightarrow> bool"
  and malformed_first_value :: "json \<Rightarrow> bool"
  and malformed_first_elems :: "json list \<Rightarrow> bool"
where
  "malformed_first_schema [] = False"
| "malformed_first_schema ((k, v) # rest) =
     (malformed_first_value v \<or>
      (typed_value v \<and> \<not> meets_bad_value v \<and> malformed_first_schema rest))"
| "malformed_first_value (JDict d) =
     (case map_of d ''allOf'' of
        Some a \<Rightarrow> \<not> singleton_list a
      | None \<Rightarrow> malformed_first_schema d)"
| "malformed_first_value (JList xs) =
     (case xs of JDict d # rest \<Rightarrow> malformed_first_elems xs | _ \<Rightarrow> False)"
| "malformed_first_value v = False"
| "malformed_first_elems [] = False"
| "malformed_first_elems (x # xs) =
     (case x of
        JDict d \<Rightarrow> malformed_first_schema d \<or>
                   (typed_schema d \<and> \<not> meets_bad_schema d \<and> malformed_first_elems xs)
      | _ \<Rightarrow> False)"

text \<open>
  Somewhere in the value, at any depth, there is a mapping whose \<^verbatim>\<open>allOf\<close> is not a
  list of one element, whether the flattener's traversal gets there or not.
\<close>

fun bad_all_of_in_schema :: "schema \<Rightarrow> bool"
  and bad_all_of_in_value :: "json \<Rightarrow> bool"
  and bad_all_of_in_list :: "json list \<Rightarrow> bool"
where
  "bad_all_of_in_schema [] = False"
| "bad_all_of_in_schema ((k, v) # rest) =
     (bad_all_of_in_value v \<or> bad_all_of_in_schema rest)"
| "bad_all_of_in_value (JDict d) =
     ((case map_of d ''allOf'' of Some a \<Rightarrow> \<not> singleton_list a | None \<Rightarrow> False) \<or>
      bad_all_of_in_schema d)"
| "bad_all_of_in_value (JList xs) = bad_all_of_in_list xs"
| "bad_all_of_in_value v = False"
| "bad_all_of_in_list [] = False"
| "bad_all_of_in_list (x # xs) = (bad_all_of_in_value x \<or> bad_all_of_in_list xs)"

section \<open>The parameter schema\<close>

text \<open>
  Modelled from the spec: \<^verbatim>\<open>ParametersSchema.parse_obj\<close> and
  \<^verbatim>\<open>.dict(exclude_unset=True)\<close> are methods of the data-model library's base class,
  which is not among the sources. The fields are those the class declares at lines 88 to
  91 (\<^verbatim>\<open>title\<close> and \<^verbatim>\<open>definitions\<close> excluded from the output, \<^verbatim>\<open>items\<close> a nested
  model, \<^verbatim>\<open>properties\<close> a mapping of names to nested models, every field optional)
  with \<^verbatim>\<open>extra = "allow"\<close> of line 94; what validating and dumping do with them
  follows section 4.2 of the spec: excluded fields are dropped at every model level,
  every other field that was set comes back, fields that were never set do not appear.

  A field is \<open>None\<close> while unset. An optional field that was set holds \<open>None\<close> for
  an explicit null.
\<close>

datatype parameters_schema =
  ParametersSchema
    (ps_title: "json option")
    (ps_definitions: "json option")
    (ps_items: "parameters_schema option option")
    (ps_properties: "(string \<times> parameters_schema) list option option")
    (ps_extra: schema)

text \<open>\<^verbatim>\<open>Optional[str]\<close>: null, text, or a number, which the library turns into text.\<close>

fun str_field_ok :: "json \<Rightarrow> bool" where
  "str_field_ok (JList xs) = False"
| "str_field_ok (JDict d) = False"
| "str_field_ok v = True"

definition declared_fields :: "string set" where
  "declared_fields = {''title'', ''definitions'', ''items'', ''properties''}"

definition extra_fields :: "schema \<Rightarrow> schema" where
  "extra_fields s = filter (\<lambda>(k, v). k \<notin> declared_fields) s"

lemma size_map_of: "map_of s k = Some v \<Longrightarrow> size v < size (JDict s)"
  by (induction s) (auto split: if_splits)

text \<open>
  Modelled from the spec: \<^verbatim>\<open>ParametersSchema.parse_obj\<close>, the library's validation
  against the declared fields. \<open>parse_obj\<close> checks \<^verbatim>\<open>title\<close> and validates
  \<^verbatim>\<open>items\<close>, \<open>parse_obj_properties\<close> goes on with \<^verbatim>\<open>properties\<close> and builds the
  model, \<open>parse_properties\<close> validates the schemas of a \<^verbatim>\<open>properties\<close> mapping.
  A value that is not of the declared type is a \<^verbatim>\<open>ValidationError\<close>; the fields
  that are not declared are kept as they are.
\<close>

function parse_obj :: "schema \<Rightarrow> error + parameters_schema"
  and parse_obj_properties ::
    "schema \<Rightarrow> parameters_schema option option \<Rightarrow> error + parameters_schema"
  and parse_properties :: "schema \<Rightarrow> error + (string \<times> parameters_schema) list"
where
  "parse_obj s =
     (if \<not> (case map_of s ''title'' of None \<Rightarrow> True | Some t \<Rightarrow> str_field_ok t)
      then Inl ValidationError
      else
        (case map_of s ''items'' of
           None \<Rightarrow> parse_obj_properties s None
         | Some v \<Rightarrow>
             (case v of
                JNull \<Rightarrow> parse_obj_properties s (Some None)
              | JDict d \<Rightarrow> (case parse_obj d of
                             Inl e \<Rightarrow> Inl e
                           | Inr m \<Rightarrow> parse_obj_properties s (Some (Some m)))
              | _ \<Rightarrow> Inl ValidationError)))"
| "parse_obj_properties s items =
     (case map_of s ''properties'' of
        None \<Rightarrow>
          Inr (ParametersSchema (map_of s ''title'') (map_of s ''definitions'')
                 items None (extra_fields s))
      | Some v \<Rightarrow>
          (case v of
             JNull \<Rightarrow>
               Inr (ParametersSchema (map_of s ''title'') (map_of s ''definitions'')
                      items (Some None) (extra_fields s))
           | JDict ps \<Rightarrow>
               (case parse_properties ps of
                  Inl e \<Rightarrow> Inl e
                | Inr ms \<Rightarrow>
                    Inr (ParametersSchema (map_of s ''title'') (map_of s ''definitions'')
                           items (Some (Some ms)) (extra_fields s)))
           | _ \<Rightarrow> Inl ValidationError))"
| "parse_properties [] = Inr []"
| "parse_properties ((n, v) # rest) =
     (case v of
        JDict d \<Rightarrow> (case parse_obj d of
                      Inl e \<Rightarrow> Inl e
                    | Inr m \<Rightarrow> (case parse_properties rest of
                                  Inl e \<Rightarrow> Inl e
                                | Inr ms \<Rightarrow> Inr ((n, m) # ms)))
      | _ \<Rightarrow> Inl ValidationError)"
  by pat_completeness auto
termination
  apply (relation "measure (\<lambda>x. case x of
                    Inl s \<Rightarrow> 2 * size (JDict s) + 1
                  | Inr (Inl (s, items)) \<Rightarrow> 2 * size (JDict s)
                  | Inr (Inr ps) \<Rightarrow> 2 * size (JDict ps) + 1)")
      apply simp_all
   apply (auto dest!: size_map_of)
  done

declare parse_obj.simps [simp del] parse_obj_properties.simps [simp del]

text \<open>
  Modelled from the spec: \<^verbatim>\<open>model.dict(exclude_unset=True)\<close>, the library's dump
  of a model: the fields that were set, the excluded ones
  apart, nested models dumped the same way. (The library gives no order to the extra
  fields; a Python dict compares equal whatever the order, and the statements below
  look entries up by key.)
\<close>

fun model_dict :: "parameters_schema \<Rightarrow> schema"
  and properties_dict :: "(string \<times> parameters_schema) list \<Rightarrow> schema"
where
  "model_dict (ParametersSchema title definitions items properties extra) =
     (case items of
        None \<Rightarrow> []
      | Some None \<Rightarrow> [(''items'', JNull)]
      | Some (Some m) \<Rightarrow> [(''items'', JDict (model_dict m))]) @
     (case properties of
        None \<Rightarrow> []
      | Some None \<Rightarrow> [(''properties'', JNull)]
      | Some (Some ms) \<Rightarrow> [(''properties'', JDict (properties_dict ms))]) @
     extra"
| "properties_dict [] = []"
| "properties_dict ((n, m) # ms) = (n, JDict (model_dict m)) # properties_dict ms"

text \<open>
  \<^verbatim>\<open>_get_parameters_from_schema\<close> (lines 122 to 138). \<^verbatim>\<open>dereference_refs\<close> belongs to
  another package and is a parameter.
\<close>

definition get_parameters_from_schema ::
  "(schema \<Rightarrow> error + schema) \<Rightarrow> schema \<Rightarrow> error + schema" where
  "get_parameters_from_schema dereference_refs schema =
     (case dereference_refs schema of
        Inl e \<Rightarrow> Inl e
      | Inr schema1 \<Rightarrow>
          (case replace_all_ofs schema1 of
             Inl e \<Rightarrow> Inl e
           | Inr schema2 \<Rightarrow>
               (case parse_obj schema2 of
                  Inl e \<Rightarrow> Inl e
                | Inr model \<Rightarrow> Inr (model_dict model))))"

text \<open>
  What section 4.2 of the spec promises of the filter, level by level: \<open>filtered s out\<close>
  holds when \<open>out\<close> has the keys of \<open>s\<close> except \<^verbatim>\<open>title\<close> and \<^verbatim>\<open>definitions\<close>
  and no other key, every key that is not a declared field keeps its value, and the
  schema under \<^verbatim>\<open>items\<close> and the schemas under \<^verbatim>\<open>properties\<close> are filtered in
  the same way. Dicts are compared as Python compares them, by key.
\<close>

inductive filtered :: "schema \<Rightarrow> schema \<Rightarrow> bool" where
  filtered_level:
    "dom (map_of out) = dom (map_of s) - {''title'', ''definitions''} \<Longrightarrow>
     \<forall>k. k \<notin> declared_fields \<longrightarrow> map_of out k = map_of s k \<Longrightarrow>
     \<forall>v. map_of s ''items'' = Some v \<longrightarrow>
        (v = JNull \<and> map_of out ''items'' = Some JNull) \<or>
        (\<exists>d d'. v = JDict d \<and> map_of out ''items'' = Some (JDict d') \<and> filtered d d') \<Longrightarrow>
     \<forall>v. map_of s ''properties'' = Some v \<longrightarrow>
        (v = JNull \<and> map_of out ''properties'' = Some JNull) \<or>
        (\<exists>ps ps'. v = JDict ps \<and> map_of out ''properties'' = Some (JDict ps') \<and>
           dom (map_of ps') = dom (map_of ps) \<and>
           (\<forall>n p. map_of ps n = Some p \<longrightarrow>
              (\<exists>d d'. p = JDict d \<and> map_of ps' n = Some (JDict d') \<and> filtered d d'))) \<Longrightarrow>
     filtered s out"

text \<open>
  The schema has the shape the class declares: a \<^verbatim>\<open>title\<close> that is null, text or a
  number, under \<^verbatim>\<open>items\<close> null or a schema of this shape, under \<^verbatim>\<open>properties\<close> null
  or a mapping of names to schemas of this shape.
\<close>

inductive declared_shape :: "schema \<Rightarrow> bool" where
  declared_shape_level:
    "\<forall>t. map_of s ''title'' = Some t \<longrightarrow> str_field_ok t \<Longrightarrow>
     \<forall>v. map_of s ''items'' = Some v \<longrightarrow>
        v = JNull \<or> (\<exists>d. v = JDict d \<and> declared_shape d) \<Longrightarrow>
     \<forall>v. map_of s ''properties'' = Some v \<longrightarrow>
        v = JNull \<or>
        (\<exists>ps. v = JDict ps \<and> (\<forall>n p. (n, p) \<in> set ps \<longrightarrow> (\<exists>d. p = JDict d \<and> declared_shape d))) \<Longrightarrow>
     declared_shape s"

section \<open>Function descriptions\<close>

text \<open>
  \<^verbatim>\<open>FunctionDescription\<close>: the dict with the keys \<^verbatim>\<open>name\<close>, \<^verbatim>\<open>description\<close> and
  \<^verbatim>\<open>parameters\<close> that each builder returns. Name and description are whatever the
  schema or the tool holds there.
\<close>

record function_description =
  fd_name :: json
  fd_description :: json
  fd_parameters :: schema

text \<open>
  \<^verbatim>\<open>_format_pydantic_to_vertex_function\<close> (lines 19 to 28). The class is known by the
  schema its \<^verbatim>\<open>schema()\<close> method returns, the parameter \<open>model_schema\<close>. The dict
  display evaluates its values in order: \<^verbatim>\<open>schema["title"]\<close> first.
\<close>

definition format_pydantic_to_vertex_function ::
  "(schema \<Rightarrow> error + schema) \<Rightarrow> ('t \<Rightarrow> schema) \<Rightarrow> 't \<Rightarrow> error + function_description" where
  "format_pydantic_to_vertex_function dereference_refs model_schema pydantic_model =
     (let schema = model_schema pydantic_model in
      case dict_item schema ''title'' of
        Inl e \<Rightarrow> Inl e
      | Inr title \<Rightarrow>
          (case get_parameters_from_schema dereference_refs schema of
             Inl e \<Rightarrow> Inl e
           | Inr params \<Rightarrow>
               Inr \<lparr>fd_name = title,
                    fd_description = dict_get schema ''description'' (JStr ''''),
                    fd_parameters = params\<rparr>))"





section \<open>The output parser\<close>

text \<open>
  A message carries its content and the side channel \<^verbatim>\<open>additional_kwargs\<close>. A
  generation is a plain \<^verbatim>\<open>Generation\<close> with its text or a \<^verbatim>\<open>ChatGeneration\<close> with
  its message. The parser holds one class or a dict of classes by function name.
\<close>

record message =
  content :: json
  additional_kwargs :: schema

datatype generation = Generation string | ChatGeneration message

datatype 't pydantic_schema = ModelClass 't | ModelDict "(string \<times> 't) list"

text \<open>
  \<^verbatim>\<open>function_call["name"]\<close> on whatever the side channel holds: only a dict can be
  subscripted with a string.
\<close>

fun subscript :: "json \<Rightarrow> string \<Rightarrow> error + json" where
  "subscript (JDict d) k = dict_item d k"
| "subscript v k = Inl TypeError"

text \<open>\<^verbatim>\<open>function_call.get("arguments", {})\<close>, reached only when the subscript went through.\<close>

fun get_arguments :: "json \<Rightarrow> error + json" where
  "get_arguments (JDict d) = Inr (dict_get d ''arguments'' (JDict []))"
| "get_arguments v = Inl AttributeError"

text \<open>
  Lines 194 to 197. A dict of classes is indexed by the function name: a list or a dict
  cannot be hashed, any other name that is not a key is a \<^verbatim>\<open>KeyError\<close>.
\<close>

fun select_schema :: "'t pydantic_schema \<Rightarrow> json \<Rightarrow> error + 't" where
  "select_schema (ModelClass cls) function_name = Inr cls"
| "select_schema (ModelDict classes) (JStr n) =
     (case map_of classes n of None \<Rightarrow> Inl (KeyError (JStr n)) | Some cls \<Rightarrow> Inr cls)"
| "select_schema (ModelDict classes) (JList xs) = Inl TypeError"
| "select_schema (ModelDict classes) (JDict d) = Inl TypeError"
| "select_schema (ModelDict classes) function_name = Inl (KeyError function_name)"

text \<open>
  Line 198, \<^verbatim>\<open>schema(**json.loads(tool_input))\<close>. \<^verbatim>\<open>json.loads\<close> and the class's
  constructor are library code and parameters; \<^verbatim>\<open>json.loads\<close> takes text only, and
  \<^verbatim>\<open>**\<close> takes a mapping only.
\<close>

definition instantiate ::
  "(string \<Rightarrow> error + json) \<Rightarrow> ('t \<Rightarrow> schema \<Rightarrow> error + 'i) \<Rightarrow> 't \<Rightarrow> json \<Rightarrow> error + 'i" where
  "instantiate json_loads construct cls tool_input =
     (case tool_input of
        JStr encoded \<Rightarrow>
          (case json_loads encoded of
             Inl e \<Rightarrow> Inl e
           | Inr (JDict kwargs) \<Rightarrow> construct cls kwargs
           | Inr _ \<Rightarrow> Inl TypeError)
      | _ \<Rightarrow> Inl TypeError)"

text \<open>
  \<^verbatim>\<open>PydanticFunctionsOutputParser.parse_result\<close> (lines 184 to 200). \<open>message_str\<close> is
  the text \<^verbatim>\<open>{message}\<close> formats to.
\<close>

definition parse_result ::
  "(message \<Rightarrow> string) \<Rightarrow> (string \<Rightarrow> error + json) \<Rightarrow> ('t \<Rightarrow> schema \<Rightarrow> error + 'i) \<Rightarrow>
   't pydantic_schema \<Rightarrow> generation list \<Rightarrow> error + 'i" where
  "parse_result message_str json_loads construct pydantic_schema result =
     (case result of
        [] \<Rightarrow> Inl IndexError
      | Generation plain # others \<Rightarrow> Inl ValueError_generation
      | ChatGeneration message # others \<Rightarrow>
          (let function_call = dict_get (additional_kwargs message) ''function_call'' (JDict [])
           in if truthy function_call then
                (case subscript function_call ''name'' of
                   Inl e \<Rightarrow> Inl e
                 | Inr function_name \<Rightarrow>
                     (case get_arguments function_call of
                        Inl e \<Rightarrow> Inl e
                      | Inr tool_input \<Rightarrow>
                          (case select_schema pydantic_schema function_name of
                             Inl e \<Rightarrow> Inl e
                           | Inr schema \<Rightarrow> instantiate json_loads construct schema tool_input)))
              else Inl (OutputParserException
                          (''Could not parse function call: '' @ message_str message))))"

section \<open>Properties of the flattener\<close>

lemma update_absent: "map_of al k = None \<Longrightarrow> AList.update k v al = al @ [(k, v)]"
  by (induction al) (auto split: if_splits)


lemma merge_all_of_Inr:
  assumes "merge_all_of v (JDict inner) = Inr r"
  obtains a b where "dict_get v ''description'' (JStr '''') = JStr a"
    and "dict_get inner ''description'' (JStr '''') = JStr b"
    and "r = JDict (AList.update ''description'' (JStr (a @ '' '' @ b))
                  (AList.update ''title''
                     (dict_get v ''title'' (dict_get inner ''title'' (JStr ''''))) inner))"
proof -
  let ?obj1 = "AList.update ''title''
                 (dict_get v ''title'' (dict_get inner ''title'' (JStr ''''))) inner"
  have same: "dict_get ?obj1 ''description'' (JStr '''') =
              dict_get inner ''description'' (JStr '''')"
    by (simp add: dict_get_def update_conv')
  from assms obtain s where
    j: "join_space (dict_get v ''description'' (JStr ''''))
                   (dict_get inner ''description'' (JStr '''')) = Inr s"
    and r: "r = JDict (AList.update ''description'' s ?obj1)"
    by (auto simp add: merge_all_of_def Let_def same split: sum.splits)
  from j obtain a b where "dict_get v ''description'' (JStr '''') = JStr a"
    "dict_get inner ''description'' (JStr '''') = JStr b" "s = JStr (a @ '' '' @ b)"
    by (auto elim!: join_space.elims)
  with r that show thesis by blast
qed

text \<open>
  C1. The claim: on every schema the flattener accepts, the output has no \<^verbatim>\<open>allOf\<close>
  key at any level, also inside the schema that replaces a singleton \<^verbatim>\<open>allOf\<close> and at
  the top level. The code does not do this. The schema of a class with a described field
  of a class that has a described field of a third class, once dereferenced, is accepted,
  and the \<^verbatim>\<open>allOf\<close> of the inner field is still there: the member that replaces the
  outer \<^verbatim>\<open>allOf\<close> is copied at line 103 and never passed to the flattener again. A
  schema that is itself an \<^verbatim>\<open>allOf\<close> of one member comes back as it went in.
\<close>

theorem nested_all_of_survives:
  "replace_all_ofs
     [(''properties'', JDict
        [(''a'', JDict
           [(''allOf'', JList [JDict
              [(''title'', JStr ''Inner''), (''type'', JStr ''object''),
               (''properties'', JDict
                  [(''b'', JDict
                     [(''allOf'', JList [JDict [(''title'', JStr ''Leaf''),
                                               (''type'', JStr ''object'')]]),
                      (''description'', JStr ''leaf'')])])]]),
            (''description'', JStr ''field a'')])])] =
   Inr [(''properties'', JDict
        [(''a'', JDict
           [(''title'', JStr ''Inner''), (''type'', JStr ''object''),
            (''properties'', JDict
               [(''b'', JDict
                  [(''allOf'', JList [JDict [(''title'', JStr ''Leaf''),
                                            (''type'', JStr ''object'')]]),
                   (''description'', JStr ''leaf'')])]),
            (''description'', JStr ''field a '')])])] \<and>
   all_of_in_schema
     [(''properties'', JDict
        [(''a'', JDict
           [(''title'', JStr ''Inner''), (''type'', JStr ''object''),
            (''properties'', JDict
               [(''b'', JDict
                  [(''allOf'', JList [JDict [(''title'', JStr ''Leaf''),
                                            (''type'', JStr ''object'')]]),
                   (''description'', JStr ''leaf'')])]),
            (''description'', JStr ''field a '')])])] \<and>
   replace_all_ofs [(''allOf'', JList [JDict [(''type'', JStr ''string'')]])] =
   Inr [(''allOf'', JList [JDict [(''type'', JStr ''string'')]])]"
  by (simp add: merge_all_of_def dict_get_def)



text \<open>
  C10. Whenever the flattener replaces a singleton \<^verbatim>\<open>allOf\<close>, the new mapping has a
  \<^verbatim>\<open>title\<close> key and a \<^verbatim>\<open>description\<close> key; when neither the outer mapping nor the
  member has them, they are appended with the empty string and a single space.
\<close>

theorem singleton_all_of_title_description:
  "map_of d ''allOf'' = Some (JList [JDict inner]) \<Longrightarrow>
   replace_value (JDict d) = Inr r \<Longrightarrow>
   (\<exists>obj t s. r = JDict obj \<and> map_of obj ''title'' = Some t \<and>
       map_of obj ''description'' = Some (JStr s)) \<and>
   (map_of d ''title'' = None \<and> map_of inner ''title'' = None \<and>
    map_of d ''description'' = None \<and> map_of inner ''description'' = None \<longrightarrow>
    r = JDict (inner @ [(''title'', JStr ''''), (''description'', JStr '' '')]))"
proof -
  assume allof: "map_of d ''allOf'' = Some (JList [JDict inner])"
    and ok: "replace_value (JDict d) = Inr r"
  from allof ok have "merge_all_of d (JDict inner) = Inr r" by simp
  then obtain a b where a: "dict_get d ''description'' (JStr '''') = JStr a"
    and b: "dict_get inner ''description'' (JStr '''') = JStr b"
    and r: "r = JDict (AList.update ''description'' (JStr (a @ '' '' @ b))
                  (AList.update ''title''
                     (dict_get d ''title'' (dict_get inner ''title'' (JStr ''''))) inner))"
    by (rule merge_all_of_Inr)
  have keys: "\<exists>obj t s. r = JDict obj \<and> map_of obj ''title'' = Some t \<and>
       map_of obj ''description'' = Some (JStr s)"
    unfolding r by (simp add: update_conv')
  have bare: "r = JDict (inner @ [(''title'', JStr ''''), (''description'', JStr '' '')])"
    if "map_of d ''title'' = None \<and> map_of inner ''title'' = None \<and>
        map_of d ''description'' = None \<and> map_of inner ''description'' = None"
  proof -
    from that a b have "a = []" "b = []" by (simp_all add: dict_get_def)
    with that show ?thesis unfolding r by (simp add: dict_get_def update_absent)
  qed
  from keys bare show ?thesis by blast
qed

theorem singleton_all_of_title_description_witness:
  "map_of [(''allOf'', JList [JDict [(''type'', JStr ''string'')]])] ''allOf'' =
     Some (JList [JDict [(''type'', JStr ''string'')]]) \<and>
   replace_value (JDict [(''allOf'', JList [JDict [(''type'', JStr ''string'')]])]) =
     Inr (JDict [(''type'', JStr ''string''), (''title'', JStr ''''),
                 (''description'', JStr '' '')]) \<and>
   map_of [(''type'', JStr ''string''), (''title'', JStr ''''), (''description'', JStr '' '')]
     ''title'' = Some (JStr '''') \<and>
   map_of [(''type'', JStr ''string''), (''title'', JStr ''''), (''description'', JStr '' '')]
     ''description'' = Some (JStr '' '')"
  using singleton_all_of_title_description
    [of "[(''allOf'', JList [JDict [(''type'', JStr ''string'')]])]"
        "[(''type'', JStr ''string'')]"
        "JDict [(''type'', JStr ''string''), (''title'', JStr ''''),
                (''description'', JStr '' '')]"]
  by (simp add: merge_all_of_def dict_get_def)

lemma no_all_of_key: "\<not> all_of_in_schema d \<Longrightarrow> map_of d ''allOf'' = None"
  by (induction d) auto

lemma identity_on_uniform:
  "\<not> all_of_in_schema s \<Longrightarrow> uniform_schema s \<Longrightarrow> replace_all_ofs s = Inr s"
  "\<not> all_of_in_value v \<Longrightarrow> uniform_value v \<Longrightarrow> replace_value v = Inr v"
  "\<not> all_of_in_list xs \<Longrightarrow> uniform_elems xs \<Longrightarrow> replace_elems xs = Inr xs"
proof (induction s and v and xs rule: replace_all_ofs_replace_value_replace_elems.induct)
  case (3 d)
  then show ?case by (simp add: no_all_of_key)
next
  case (4 xs)
  then show ?case by (auto split: list.splits json.splits)
next
  case (7 x xs)
  then show ?case by (auto split: json.splits)
qed auto

text \<open>Without that, the first element that is not a mapping ends the flattening.\<close>

lemma attribute_error_on_mixed:
  "\<not> all_of_in_schema s \<Longrightarrow> \<not> uniform_schema s \<Longrightarrow> replace_all_ofs s = Inl AttributeError"
  "\<not> all_of_in_value v \<Longrightarrow> \<not> uniform_value v \<Longrightarrow> replace_value v = Inl AttributeError"
  "\<not> all_of_in_list xs \<Longrightarrow> \<not> uniform_elems xs \<Longrightarrow> replace_elems xs = Inl AttributeError"
proof (induction s and v and xs rule: replace_all_ofs_replace_value_replace_elems.induct)
  case (2 k v rest)
  then show ?case
    by (cases "uniform_value v") (auto simp add: identity_on_uniform)
next
  case (3 d)
  then show ?case by (simp add: no_all_of_key)
next
  case (4 xs)
  then show ?case by (auto split: list.splits json.splits)
next
  case (7 x xs)
  show ?case
  proof (cases x)
    case (JDict d)
    with 7 show ?thesis
      by (cases "uniform_schema d") (auto simp add: identity_on_uniform)
  qed simp_all
qed auto

text \<open>
  C6. The claim as stated, the flattener returns every schema without an \<^verbatim>\<open>allOf\<close> key
  unchanged, fails on a list that starts with a mapping and holds something else as
  well: line 116 calls \<^verbatim>\<open>_replace_all_ofs\<close> on every element of such a list.
\<close>

theorem mixed_list_not_identity:
  "\<not> (\<forall>s. \<not> all_of_in_schema s \<longrightarrow> replace_all_ofs s = Inr s)"
proof
  assume "\<forall>s. \<not> all_of_in_schema s \<longrightarrow> replace_all_ofs s = Inr s"
  then have "\<not> all_of_in_schema [(''examples'', JList [JDict [(''a'', JInt 1)], JInt 2])] \<longrightarrow>
    replace_all_ofs [(''examples'', JList [JDict [(''a'', JInt 1)], JInt 2])]
      = Inr [(''examples'', JList [JDict [(''a'', JInt 1)], JInt 2])]"
    by (rule spec)
  then show False by simp
qed

text \<open>
  C6, amended. On a schema with no \<^verbatim>\<open>allOf\<close> key at any level in which every list
  the flattener enters holds mappings only, the flattener returns a schema equal to its
  input.
\<close>

theorem all_of_free_identity:
  "\<not> all_of_in_schema s \<Longrightarrow> uniform_schema s \<Longrightarrow> replace_all_ofs s = Inr s"
  by (rule identity_on_uniform)

theorem all_of_free_identity_witness:
  "\<not> all_of_in_schema [(''type'', JStr ''object''),
      (''properties'', JDict [(''n'', JDict [(''type'', JStr ''integer'')])]),
      (''anyOf'', JList [JDict [(''required'', JList [JStr ''n''])], JDict []])] \<and>
   uniform_schema [(''type'', JStr ''object''),
      (''properties'', JDict [(''n'', JDict [(''type'', JStr ''integer'')])]),
      (''anyOf'', JList [JDict [(''required'', JList [JStr ''n''])], JDict []])] \<and>
   replace_all_ofs [(''type'', JStr ''object''),
      (''properties'', JDict [(''n'', JDict [(''type'', JStr ''integer'')])]),
      (''anyOf'', JList [JDict [(''required'', JList [JStr ''n''])], JDict []])] =
   Inr [(''type'', JStr ''object''),
      (''properties'', JDict [(''n'', JDict [(''type'', JStr ''integer'')])]),
      (''anyOf'', JList [JDict [(''required'', JList [JStr ''n''])], JDict []])]"
proof -
  let ?s = "[(''type'', JStr ''object''),
      (''properties'', JDict [(''n'', JDict [(''type'', JStr ''integer'')])]),
      (''anyOf'', JList [JDict [(''required'', JList [JStr ''n''])], JDict []])]"
  have a: "\<not> all_of_in_schema ?s" by simp
  have u: "uniform_schema ?s" by simp
  from all_of_free_identity [OF a u] have "replace_all_ofs ?s = Inr ?s" .
  with a u show ?thesis by blast
qed

lemma not_singleton_fails:
  "\<not> singleton_list a \<Longrightarrow>
   (case a of JList [member] \<Rightarrow> merge_all_of d member | _ \<Rightarrow> Inl (ValueError_allOf a))
     = Inl (ValueError_allOf a)"
  by (cases a rule: singleton_list.cases) simp_all

lemma meets_bad_fails:
  "meets_bad_schema s \<Longrightarrow> \<exists>e. replace_all_ofs s = Inl e"
  "meets_bad_value v \<Longrightarrow> \<exists>e. replace_value v = Inl e"
  "meets_bad_elems xs \<Longrightarrow> \<exists>e. replace_elems xs = Inl e"
proof (induction s and v and xs rule: replace_all_ofs_replace_value_replace_elems.induct)
  case (2 k v rest)
  then show ?case by (cases "replace_value v") auto
next
  case (3 d)
  then show ?case
    by (cases "map_of d ''allOf''") (auto simp add: not_singleton_fails)
next
  case (4 xs)
  then show ?case by (auto split: list.splits json.splits)
next
  case (7 x xs)
  show ?case
  proof (cases x)
    case (JDict d)
    show ?thesis
    proof (cases "replace_all_ofs d")
      case (Inl e)
      with JDict show ?thesis by simp
    next
      case (Inr b)
      from 7 JDict Inr have "meets_bad_elems xs"
        using "7.IH"(1) [OF JDict] by auto
      with "7.IH"(2) [OF JDict Inr] obtain e where "replace_elems xs = Inl e" by blast
      with JDict Inr show ?thesis by simp
    qed
  qed (use 7 in simp_all)
qed auto

lemma typed_member_merge:
  "singleton_list a \<Longrightarrow> typed_member d a \<Longrightarrow>
   \<exists>r. (case a of JList [member] \<Rightarrow> merge_all_of d member | _ \<Rightarrow> Inl (ValueError_allOf a))
        = Inr r"
proof (induction d a rule: typed_member.induct)
  case (1 d inner)
  then obtain a b where "dict_get d ''description'' (JStr '''') = JStr a"
    "dict_get inner ''description'' (JStr '''') = JStr b"
    by (auto elim!: is_str.elims)
  then show ?case
    by (simp add: merge_all_of_def Let_def dict_get_def update_conv')
qed simp_all

lemma typed_outcome:
  "typed_schema s \<Longrightarrow>
     (meets_bad_schema s \<longrightarrow> (\<exists>a. replace_all_ofs s = Inl (ValueError_allOf a))) \<and>
     (\<not> meets_bad_schema s \<longrightarrow> (\<exists>r. replace_all_ofs s = Inr r))"
  "typed_value v \<Longrightarrow>
     (meets_bad_value v \<longrightarrow> (\<exists>a. replace_value v = Inl (ValueError_allOf a))) \<and>
     (\<not> meets_bad_value v \<longrightarrow> (\<exists>r. replace_value v = Inr r))"
  "typed_elems xs \<Longrightarrow>
     (meets_bad_elems xs \<longrightarrow> (\<exists>a. replace_elems xs = Inl (ValueError_allOf a))) \<and>
     (\<not> meets_bad_elems xs \<longrightarrow> (\<exists>r. replace_elems xs = Inr r))"
proof (induction s and v and xs rule: replace_all_ofs_replace_value_replace_elems.induct)
  case (2 k v rest)
  then show ?case by (cases "meets_bad_value v") auto
next
  case (3 d)
  show ?case
  proof (cases "map_of d ''allOf''")
    case None
    with 3 show ?thesis by auto
  next
    case (Some a)
    with 3 have t: "typed_member d a" by simp
    show ?thesis
    proof (cases "singleton_list a")
      case True
      from typed_member_merge [OF True t] Some True show ?thesis by simp
    next
      case False
      with Some show ?thesis by (simp add: not_singleton_fails)
    qed
  qed
next
  case (4 xs)
  then show ?case by (auto split: list.splits json.splits)
next
  case (7 x xs)
  show ?case
  proof (cases x)
    case (JDict d)
    with "7.prems" have td: "typed_schema d" and te: "typed_elems xs" by simp_all
    note ihd = "7.IH"(1) [OF JDict td]
    show ?thesis
    proof (cases "meets_bad_schema d")
      case True
      with ihd JDict show ?thesis by auto
    next
      case False
      with ihd obtain r where r: "replace_all_ofs d = Inr r" by blast
      from "7.IH"(2) [OF JDict r te] JDict r False show ?thesis by auto
    qed
  qed (use 7 in simp_all)
qed auto

lemma malformed_first_value_error:
  "malformed_first_schema s \<Longrightarrow> \<exists>a. replace_all_ofs s = Inl (ValueError_allOf a)"
  "malformed_first_value v \<Longrightarrow> \<exists>a. replace_value v = Inl (ValueError_allOf a)"
  "malformed_first_elems xs \<Longrightarrow> \<exists>a. replace_elems xs = Inl (ValueError_allOf a)"
proof (induction s and v and xs rule: replace_all_ofs_replace_value_replace_elems.induct)
  case (2 k v rest)
  show ?case
  proof (cases "malformed_first_value v")
    case True
    with "2.IH"(1) show ?thesis by auto
  next
    case False
    with "2.prems" have t: "typed_value v" and n: "\<not> meets_bad_value v"
      and r: "malformed_first_schema rest" by simp_all
    from typed_outcome(2) [OF t] n obtain b where b: "replace_value v = Inr b" by blast
    from "2.IH"(2) [OF b r] b show ?thesis by auto
  qed
next
  case (3 d)
  then show ?case
    by (cases "map_of d ''allOf''") (auto simp add: not_singleton_fails)
next
  case (4 xs)
  then show ?case by (auto split: list.splits json.splits)
next
  case (7 x xs)
  show ?case
  proof (cases x)
    case (JDict d)
    show ?thesis
    proof (cases "malformed_first_schema d")
      case True
      with "7.IH"(1) [OF JDict] JDict show ?thesis by auto
    next
      case False
      with "7.prems" JDict have t: "typed_schema d" and n: "\<not> meets_bad_schema d"
        and r: "malformed_first_elems xs" by simp_all
      from typed_outcome(1) [OF t] n obtain b where b: "replace_all_ofs d = Inr b" by blast
      from "7.IH"(2) [OF JDict b r] JDict b show ?thesis by auto
    qed
  qed (use 7 in simp_all)
qed auto

text \<open>
  C5. The claim as stated, every schema that contains a mapping value with a malformed
  \<^verbatim>\<open>allOf\<close> makes the flattener fail with the \<^verbatim>\<open>ValueError\<close> of line 110, fails in
  three ways. A list whose first element is not a mapping is copied as it is (the guard
  of line 115), whatever it holds, and the flattener returns a result. A list that
  starts with a mapping and holds something else, met before the malformed \<^verbatim>\<open>allOf\<close>,
  ends the flattening with \<^verbatim>\<open>AttributeError\<close> (line 116). A description that is not
  a string, joined at line 105 before the malformed \<^verbatim>\<open>allOf\<close> is met, ends it with
  \<^verbatim>\<open>TypeError\<close>.
\<close>

theorem malformed_all_of_other_outcomes:
  "bad_all_of_in_schema
     [(''default'', JList [JInt 0, JDict [(''a'', JDict [(''allOf'', JList [])])]])] \<and>
   replace_all_ofs
     [(''default'', JList [JInt 0, JDict [(''a'', JDict [(''allOf'', JList [])])]])] =
   Inr [(''default'', JList [JInt 0, JDict [(''a'', JDict [(''allOf'', JList [])])]])] \<and>
   bad_all_of_in_schema
     [(''examples'', JList [JDict [(''a'', JInt 1)], JInt 2]),
      (''x'', JDict [(''allOf'', JList [])])] \<and>
   replace_all_ofs
     [(''examples'', JList [JDict [(''a'', JInt 1)], JInt 2]),
      (''x'', JDict [(''allOf'', JList [])])] = Inl AttributeError \<and>
   bad_all_of_in_schema
     [(''a'', JDict [(''allOf'', JList [JDict []]), (''description'', JInt 5)]),
      (''x'', JDict [(''allOf'', JList [])])] \<and>
   replace_all_ofs
     [(''a'', JDict [(''allOf'', JList [JDict []]), (''description'', JInt 5)]),
      (''x'', JDict [(''allOf'', JList [])])] = Inl TypeError"
  by (simp add: merge_all_of_def dict_get_def)

text \<open>
  C5, amended. When a mapping value whose \<^verbatim>\<open>allOf\<close> is not a list of one element
  stands where the flattener looks at it (not hidden in a list whose first element is
  not a mapping), the flattener fails and returns nothing; when moreover every entry
  visited before it is typed as a schema's entries are, the failure is the
  \<^verbatim>\<open>ValueError\<close> of line 110 (the spec's SchemaError). Nothing is stated of a
  malformed \<^verbatim>\<open>allOf\<close> inside a mapping value that holds a singleton \<^verbatim>\<open>allOf\<close>,
  nor of the \<^verbatim>\<open>allOf\<close> of a mapping that is itself an element of a list.
\<close>

theorem malformed_all_of_rejected:
  "(meets_bad_schema s \<longrightarrow> (\<exists>e. replace_all_ofs s = Inl e)) \<and>
   (malformed_first_schema s \<longrightarrow> (\<exists>a. replace_all_ofs s = Inl (ValueError_allOf a)))"
  using meets_bad_fails(1) [of s] malformed_first_value_error(1) [of s] by blast

theorem malformed_all_of_rejected_witness:
  "meets_bad_schema
     [(''title'', JStr ''T''),
      (''properties'', JDict [(''x'', JDict [(''allOf'', JList [JDict [], JDict []])])])] \<and>
   malformed_first_schema
     [(''title'', JStr ''T''),
      (''properties'', JDict [(''x'', JDict [(''allOf'', JList [JDict [], JDict []])])])] \<and>
   replace_all_ofs
     [(''title'', JStr ''T''),
      (''properties'', JDict [(''x'', JDict [(''allOf'', JList [JDict [], JDict []])])])] =
   Inl (ValueError_allOf (JList [JDict [], JDict []]))"
  using malformed_all_of_rejected
    [of "[(''title'', JStr ''T''),
      (''properties'', JDict [(''x'', JDict [(''allOf'', JList [JDict [], JDict []])])])]"]
  by simp


section \<open>Properties of the output parser\<close>

lemma parse_result_falsy:
  "\<not> truthy (dict_get (additional_kwargs m) ''function_call'' (JDict [])) \<Longrightarrow>
   parse_result message_str json_loads construct pydantic_schema (ChatGeneration m # others) =
     Inl (OutputParserException (''Could not parse function call: '' @ message_str m))"
  by (simp add: parse_result_def Let_def)

text \<open>
  C7. On a list of generations whose first element is a chat generation with no
  \<^verbatim>\<open>function_call\<close> entry in its side channel, \<^verbatim>\<open>parse_result\<close> returns no value: it
  raises \<^verbatim>\<open>OutputParserException\<close>, and the text of the exception ends with the whole
  message as formatted. Whatever the class selector, the decoder and the constructor are.
\<close>

theorem no_function_call_raises:
  "map_of (additional_kwargs m) ''function_call'' = None \<Longrightarrow>
   parse_result message_str json_loads construct pydantic_schema (ChatGeneration m # others) =
     Inl (OutputParserException (''Could not parse function call: '' @ message_str m))"
  by (rule parse_result_falsy) (simp add: dict_get_def)

theorem no_function_call_raises_witness:
  "map_of (additional_kwargs \<lparr>content = JStr ''hello'', additional_kwargs = []\<rparr>)
     ''function_call'' = None \<and>
   parse_result (\<lambda>m. ''content=hello'') (\<lambda>t. Inl JSONDecodeError)
     (\<lambda>(c :: unit) kw. (Inl ValidationError :: error + unit)) (ModelClass ())
     [ChatGeneration \<lparr>content = JStr ''hello'', additional_kwargs = []\<rparr>] =
   Inl (OutputParserException ''Could not parse function call: content=hello'')"
  using no_function_call_raises [of "\<lparr>content = JStr ''hello'', additional_kwargs = []\<rparr>"
      "\<lambda>m. ''content=hello''" "\<lambda>t. Inl JSONDecodeError"
      "\<lambda>(c :: unit) kw. (Inl ValidationError :: error + unit)" "ModelClass ()" "[]"]
  by simp

text \<open>
  C9. \<^verbatim>\<open>parse_result\<close> tests the side-channel entry for truth: a message whose
  \<^verbatim>\<open>function_call\<close> is the empty mapping, or any other false value, gets the same
  \<^verbatim>\<open>OutputParserException\<close> as a message without the entry, and neither the name
  lookup nor the decoding is attempted (the result does not depend on them).
\<close>

theorem empty_function_call_raises:
  "(map_of (additional_kwargs m) ''function_call'' = Some (JDict []) \<longrightarrow>
    parse_result message_str json_loads construct pydantic_schema (ChatGeneration m # others) =
      Inl (OutputParserException (''Could not parse function call: '' @ message_str m))) \<and>
   (\<forall>fc. map_of (additional_kwargs m) ''function_call'' = Some fc \<and> \<not> truthy fc \<longrightarrow>
    parse_result message_str json_loads construct pydantic_schema (ChatGeneration m # others) =
      Inl (OutputParserException (''Could not parse function call: '' @ message_str m)))"
  by (intro conjI allI impI; rule parse_result_falsy; auto simp add: dict_get_def)

theorem empty_function_call_raises_witness:
  "map_of (additional_kwargs \<lparr>content = JStr ''hello'',
       additional_kwargs = [(''function_call'', JDict [])]\<rparr>) ''function_call''
     = Some (JDict []) \<and>
   parse_result (\<lambda>m. ''content=hello'') (\<lambda>t. Inr (JDict []))
     (\<lambda>(c :: unit) kw. (Inr () :: error + unit)) (ModelClass ())
     [ChatGeneration \<lparr>content = JStr ''hello'',
        additional_kwargs = [(''function_call'', JDict [])]\<rparr>] =
   Inl (OutputParserException ''Could not parse function call: content=hello'')"
  using empty_function_call_raises [of "\<lparr>content = JStr ''hello'',
        additional_kwargs = [(''function_call'', JDict [])]\<rparr>"
      "\<lambda>m. ''content=hello''" "\<lambda>t. Inr (JDict [])"
      "\<lambda>(c :: unit) kw. (Inr () :: error + unit)" "ModelClass ()" "[]"]
  by simp

text \<open>
  C3. The claim as stated, building the description of a class and parsing a function
  call that names the class gives back the instance whose fields the call carries, fails
  in two ways. The parser looks the name up in its own dict of classes (line 195), and
  the docstring's parser holds \<^verbatim>\<open>Cookie\<close> under \<^verbatim>\<open>cookie\<close>, while the builder names
  it by the schema's title, \<^verbatim>\<open>Cookie\<close>: the lookup raises \<^verbatim>\<open>KeyError\<close>. And the
  result is whatever the class's constructor makes of the decoded fields (line 198): a
  class that changes a value when it validates does not give back its instance.
\<close>

theorem parser_key_not_builder_name:
  \<open>format_pydantic_to_vertex_function Inr
     (\<lambda>c. [(''title'', JStr c), (''type'', JStr ''object''),
           (''properties'', JDict [(''name'', JDict [(''type'', JStr ''string'')])]),
           (''required'', JList [JStr ''name''])]) ''Cookie'' =
     Inr \<lparr>fd_name = JStr ''Cookie'', fd_description = JStr '''',
          fd_parameters =
            [(''properties'', JDict [(''name'', JDict [(''type'', JStr ''string'')])]),
             (''type'', JStr ''object''),
             (''required'', JList [JStr ''name''])]\<rparr> \<and>
   parse_result (\<lambda>m. ''message'')
     (\<lambda>t. if t = ''{"name": "value"}'' then Inr (JDict [(''name'', JStr ''value'')])
          else Inl JSONDecodeError)
     (\<lambda>(c :: string) kwargs. (Inr kwargs :: error + schema))
     (ModelDict [(''cookie'', ''Cookie''), (''dog'', ''Dog'')])
     [ChatGeneration \<lparr>content = JStr '''',
        additional_kwargs =
          [(''function_call'',
            JDict [(''name'', JStr ''Cookie''),
                   (''arguments'', JStr ''{"name": "value"}'')])]\<rparr>] =
     Inl (KeyError (JStr ''Cookie'')) \<and>
   parse_result (\<lambda>m. ''message'')
     (\<lambda>t. if t = ''{"name": "value!"}'' then Inr (JDict [(''name'', JStr ''value!'')])
          else Inl JSONDecodeError)
     (\<lambda>(c :: string) kwargs.
        (Inr (map (\<lambda>(k, v). (k, case v of JStr s \<Rightarrow> JStr (s @ ''!'') | _ \<Rightarrow> v)) kwargs)
           :: error + schema))
     (ModelClass ''Cookie'')
     [ChatGeneration \<lparr>content = JStr '''',
        additional_kwargs =
          [(''function_call'',
            JDict [(''name'', JStr ''Cookie''),
                   (''arguments'', JStr ''{"name": "value!"}'')])]\<rparr>] =
     Inr [(''name'', JStr ''value!!'')]\<close>
  by (simp add: format_pydantic_to_vertex_function_def get_parameters_from_schema_def
      parse_obj.simps parse_obj_properties.simps extra_fields_def declared_fields_def
      dict_item_def dict_get_def parse_result_def instantiate_def)

text \<open>
  C3, amended. Round trip. A function description is built from a class; a chat
  generation carries a function call whose name is the name of that description and
  whose arguments are text that decodes to the fields of an instance of the class; the
  parser holds the class itself, or a dict that has the class under its schema's title,
  which is the name the builder gives. Then \<^verbatim>\<open>parse_result\<close> returns what the
  class's constructor makes of these fields: the instance itself whenever the class
  rebuilds an instance from its own fields.
\<close>

theorem function_call_round_trip:
  "format_pydantic_to_vertex_function dereference_refs model_schema cls = Inr fd \<Longrightarrow>
   pydantic_schema = ModelClass cls \<or>
   (\<exists>classes title. pydantic_schema = ModelDict classes \<and>
      map_of (model_schema cls) ''title'' = Some (JStr title) \<and>
      map_of classes title = Some cls) \<Longrightarrow>
   map_of (additional_kwargs m) ''function_call'' = Some (JDict call) \<Longrightarrow>
   map_of call ''name'' = Some (fd_name fd) \<Longrightarrow>
   map_of call ''arguments'' = Some (JStr encoded) \<Longrightarrow>
   json_loads encoded = Inr (JDict (fields_of inst)) \<Longrightarrow>
   parse_result message_str json_loads construct pydantic_schema (ChatGeneration m # others) =
     construct cls (fields_of inst) \<and>
   (construct cls (fields_of inst) = Inr inst \<longrightarrow>
    parse_result message_str json_loads construct pydantic_schema (ChatGeneration m # others) =
      Inr inst)"
proof -
  assume built: "format_pydantic_to_vertex_function dereference_refs model_schema cls = Inr fd"
    and parser: "pydantic_schema = ModelClass cls \<or>
      (\<exists>classes title. pydantic_schema = ModelDict classes \<and>
         map_of (model_schema cls) ''title'' = Some (JStr title) \<and>
         map_of classes title = Some cls)"
    and call: "map_of (additional_kwargs m) ''function_call'' = Some (JDict call)"
    and name: "map_of call ''name'' = Some (fd_name fd)"
    and args: "map_of call ''arguments'' = Some (JStr encoded)"
    and dec: "json_loads encoded = Inr (JDict (fields_of inst))"
  from built have named: "map_of (model_schema cls) ''title'' = Some (fd_name fd)"
    by (auto simp add: format_pydantic_to_vertex_function_def Let_def dict_item_def
        split: option.splits sum.splits)
  from parser named have sel: "select_schema pydantic_schema (fd_name fd) = Inr cls"
    by auto
  from name have "call \<noteq> []" by auto
  with call name args sel dec
  have "parse_result message_str json_loads construct pydantic_schema (ChatGeneration m # others) =
     construct cls (fields_of inst)"
    by (simp add: parse_result_def Let_def dict_get_def dict_item_def instantiate_def)
  then show ?thesis by simp
qed

theorem function_call_round_trip_witness:
  \<open>format_pydantic_to_vertex_function Inr
     (\<lambda>c. [(''title'', JStr c), (''type'', JStr ''object''),
        (''properties'', JDict [(''name'', JDict [(''title'', JStr ''Name''), (''type'', JStr ''string'')]),
                                (''age'', JDict [(''title'', JStr ''Age''), (''type'', JStr ''integer'')])]),
        (''required'', JList [JStr ''name'', JStr ''age''])]) ''Cookie'' =
     Inr \<lparr>fd_name = JStr ''Cookie'', fd_description = JStr '''',
          fd_parameters =
            [(''properties'', JDict [(''name'', JDict [(''type'', JStr ''string'')]),
                                     (''age'', JDict [(''type'', JStr ''integer'')])]),
             (''type'', JStr ''object''),
             (''required'', JList [JStr ''name'', JStr ''age''])]\<rparr> \<and>
   map_of [(''Cookie'', ''Cookie''), (''Dog'', ''Dog'')] ''Cookie'' = Some ''Cookie'' \<and>
   parse_result (\<lambda>m. ''message'')
     (\<lambda>t. if t = ''{"name": "value", "age": 10}''
          then Inr (JDict [(''name'', JStr ''value''), (''age'', JInt 10)])
          else Inl JSONDecodeError)
     (\<lambda>(c :: string) kwargs. (Inr kwargs :: error + schema))
     (ModelDict [(''Cookie'', ''Cookie''), (''Dog'', ''Dog'')])
     [ChatGeneration \<lparr>content = JStr '''',
        additional_kwargs =
          [(''function_call'',
            JDict [(''name'', JStr ''Cookie''),
                   (''arguments'', JStr ''{"name": "value", "age": 10}'')])]\<rparr>] =
     Inr [(''name'', JStr ''value''), (''age'', JInt 10)]\<close>
proof -
  let ?ms = "\<lambda>c. [(''title'', JStr c), (''type'', JStr ''object''),
        (''properties'', JDict [(''name'', JDict [(''title'', JStr ''Name''), (''type'', JStr ''string'')]),
                                (''age'', JDict [(''title'', JStr ''Age''), (''type'', JStr ''integer'')])]),
        (''required'', JList [JStr ''name'', JStr ''age''])]"
  let ?fd = "\<lparr>fd_name = JStr ''Cookie'', fd_description = JStr '''',
          fd_parameters =
            [(''properties'', JDict [(''name'', JDict [(''type'', JStr ''string'')]),
                                     (''age'', JDict [(''type'', JStr ''integer'')])]),
             (''type'', JStr ''object''),
             (''required'', JList [JStr ''name'', JStr ''age''])]\<rparr>"
  let ?text = \<open>''{"name": "value", "age": 10}''\<close>
  let ?call = "[(''name'', JStr ''Cookie''), (''arguments'', JStr ?text)]"
  let ?m = "\<lparr>content = JStr '''', additional_kwargs = [(''function_call'', JDict ?call)]\<rparr>"
  let ?loads = "\<lambda>t. if t = ?text
          then Inr (JDict [(''name'', JStr ''value''), (''age'', JInt 10)])
          else Inl JSONDecodeError"
  let ?construct = "\<lambda>(c :: string) kwargs. (Inr kwargs :: error + schema)"
  let ?parser = "ModelDict [(''Cookie'', ''Cookie''), (''Dog'', ''Dog'')]"
  let ?inst = "[(''name'', JStr ''value''), (''age'', JInt 10)]"
  have built: "format_pydantic_to_vertex_function Inr ?ms ''Cookie'' = Inr ?fd"
    by (simp add: format_pydantic_to_vertex_function_def get_parameters_from_schema_def
        parse_obj.simps parse_obj_properties.simps extra_fields_def declared_fields_def
        dict_item_def dict_get_def)
  have parser: "?parser = ModelClass ''Cookie'' \<or>
      (\<exists>classes title. ?parser = ModelDict classes \<and>
         map_of (?ms ''Cookie'') ''title'' = Some (JStr title) \<and>
         map_of classes title = Some ''Cookie'')"
    by simp
  have call: "map_of (additional_kwargs ?m) ''function_call'' = Some (JDict ?call)" by simp
  have name: "map_of ?call ''name'' = Some (fd_name ?fd)" by simp
  have args: "map_of ?call ''arguments'' = Some (JStr ?text)" by simp
  have dec: "?loads ?text = Inr (JDict ((\<lambda>i. i) ?inst))" by simp
  from function_call_round_trip [of Inr ?ms "''Cookie''" ?fd ?parser ?m ?call ?text ?loads "\<lambda>i. i" ?inst
      "\<lambda>m. ''message''" ?construct "[]", OF built parser call name args dec]
  have "parse_result (\<lambda>m. ''message'') ?loads ?construct ?parser [ChatGeneration ?m] = Inr ?inst"
    by simp
  with built show ?thesis by simp
qed

section \<open>Properties of the builders\<close>



section \<open>Properties of the parameter filter\<close>

lemma map_of_extra_fields:
  "map_of (extra_fields s) k = (if k \<in> declared_fields then None else map_of s k)"
  by (induction s) (auto simp add: extra_fields_def)

lemma map_of_model_dict:
  "map_of (model_dict (ParametersSchema t d i p (extra_fields s))) k =
     (if k = ''items'' then
        (case i of None \<Rightarrow> None | Some None \<Rightarrow> Some JNull
         | Some (Some m) \<Rightarrow> Some (JDict (model_dict m)))
      else if k = ''properties'' then
        (case p of None \<Rightarrow> None | Some None \<Rightarrow> Some JNull
         | Some (Some ms) \<Rightarrow> Some (JDict (properties_dict ms)))
      else if k \<in> declared_fields then None
      else map_of s k)"
  by (auto simp add: map_of_extra_fields declared_fields_def map_add_def split: option.splits)

lemma filtered_assemble:
  assumes items:
    "(map_of s ''items'' = None \<and> i = None) \<or>
     (map_of s ''items'' = Some JNull \<and> i = Some None) \<or>
     (\<exists>c mi. map_of s ''items'' = Some (JDict c) \<and> i = Some (Some mi) \<and>
        filtered c (model_dict mi))"
  and props:
    "(map_of s ''properties'' = None \<and> p = None) \<or>
     (map_of s ''properties'' = Some JNull \<and> p = Some None) \<or>
     (\<exists>ps ms. map_of s ''properties'' = Some (JDict ps) \<and> p = Some (Some ms) \<and>
        dom (map_of (properties_dict ms)) = dom (map_of ps) \<and>
        (\<forall>n q. map_of ps n = Some q \<longrightarrow>
           (\<exists>c c'. q = JDict c \<and> map_of (properties_dict ms) n = Some (JDict c') \<and>
              filtered c c')))"
  shows "filtered s (model_dict (ParametersSchema t d i p (extra_fields s)))"
proof (rule filtered_level)
  let ?out = "model_dict (ParametersSchema t d i p (extra_fields s))"
  have lk: "map_of ?out k =
     (if k = ''items'' then
        (case i of None \<Rightarrow> None | Some None \<Rightarrow> Some JNull
         | Some (Some m) \<Rightarrow> Some (JDict (model_dict m)))
      else if k = ''properties'' then
        (case p of None \<Rightarrow> None | Some None \<Rightarrow> Some JNull
         | Some (Some ms) \<Rightarrow> Some (JDict (properties_dict ms)))
      else if k \<in> declared_fields then None
      else map_of s k)" for k
    by (rule map_of_model_dict)
  have in_dom: "(k \<in> dom (map_of ?out)) =
      (k \<in> dom (map_of s) \<and> k \<noteq> ''title'' \<and> k \<noteq> ''definitions'')" for k
  proof (cases "k = ''items''")
    case True
    with items show ?thesis unfolding dom_def lk by auto
  next
    case False
    note ni = this
    show ?thesis
    proof (cases "k = ''properties''")
      case True
      with props show ?thesis unfolding dom_def lk by auto
    next
      case False
      with ni show ?thesis unfolding dom_def lk
        by (auto simp add: declared_fields_def)
    qed
  qed
  then show "dom (map_of ?out) = dom (map_of s) - {''title'', ''definitions''}"
    by blast
  show "\<forall>k. k \<notin> declared_fields \<longrightarrow> map_of ?out k = map_of s k"
    unfolding lk by (auto simp add: declared_fields_def)
  from items show "\<forall>v. map_of s ''items'' = Some v \<longrightarrow>
        (v = JNull \<and> map_of ?out ''items'' = Some JNull) \<or>
        (\<exists>c c'. v = JDict c \<and> map_of ?out ''items'' = Some (JDict c') \<and> filtered c c')"
    unfolding lk by auto
  from props show "\<forall>v. map_of s ''properties'' = Some v \<longrightarrow>
        (v = JNull \<and> map_of ?out ''properties'' = Some JNull) \<or>
        (\<exists>ps ps'. v = JDict ps \<and> map_of ?out ''properties'' = Some (JDict ps') \<and>
           dom (map_of ps') = dom (map_of ps) \<and>
           (\<forall>n q. map_of ps n = Some q \<longrightarrow>
              (\<exists>c c'. q = JDict c \<and> map_of ps' n = Some (JDict c') \<and> filtered c c')))"
    unfolding lk by auto
qed

lemma parse_filtered:
  "\<forall>m. parse_obj s = Inr m \<longrightarrow> filtered s (model_dict m)"
  "\<forall>m. parse_obj_properties s i = Inr m \<longrightarrow>
     (map_of s ''items'' = None \<and> i = None) \<or>
     (map_of s ''items'' = Some JNull \<and> i = Some None) \<or>
     (\<exists>c mi. map_of s ''items'' = Some (JDict c) \<and> i = Some (Some mi) \<and>
        filtered c (model_dict mi)) \<longrightarrow>
     filtered s (model_dict m)"
  "\<forall>ms. parse_properties ps = Inr ms \<longrightarrow>
     dom (map_of (properties_dict ms)) = dom (map_of ps) \<and>
     (\<forall>n q. map_of ps n = Some q \<longrightarrow>
        (\<exists>c c'. q = JDict c \<and> map_of (properties_dict ms) n = Some (JDict c') \<and>
           filtered c c'))"
proof (induction s and s i and ps rule: parse_obj_parse_obj_properties_parse_properties.induct)
  case (1 s)
  show ?case
  proof (intro allI impI)
    fix m
    assume ok: "parse_obj s = Inr m"
    then have title: "\<not> \<not> (case map_of s ''title'' of None \<Rightarrow> True | Some x \<Rightarrow> str_field_ok x)"
      by (subst (asm) parse_obj.simps) (auto split: if_splits)
    show "filtered s (model_dict m)"
    proof (cases "map_of s ''items''")
      case None
      with ok title have "parse_obj_properties s None = Inr m"
        by (subst (asm) parse_obj.simps) (simp split: if_splits)
      with "1.IH"(1) [OF title None] None show ?thesis by blast
    next
      case (Some v)
      show ?thesis
      proof (cases v)
        case JNull
        with ok title Some have "parse_obj_properties s (Some None) = Inr m"
          by (subst (asm) parse_obj.simps) (simp split: if_splits)
        with "1.IH"(2) [OF title Some JNull] Some JNull show ?thesis by blast
      next
        case (JDict c)
        with ok title Some obtain mi where mi: "parse_obj c = Inr mi"
          and rest: "parse_obj_properties s (Some (Some mi)) = Inr m"
          by (subst (asm) parse_obj.simps) (auto split: if_splits sum.splits)
        from "1.IH"(3) [OF title Some JDict] mi have "filtered c (model_dict mi)" by blast
        with "1.IH"(4) [OF title Some JDict mi] rest Some JDict show ?thesis by blast
      qed (use ok title Some in \<open>subst (asm) parse_obj.simps, simp split: if_splits\<close>)+
    qed
  qed
next
  case (2 s i)
  show ?case
  proof (intro allI impI)
    fix m
    assume ok: "parse_obj_properties s i = Inr m"
      and items: "(map_of s ''items'' = None \<and> i = None) \<or>
     (map_of s ''items'' = Some JNull \<and> i = Some None) \<or>
     (\<exists>c mi. map_of s ''items'' = Some (JDict c) \<and> i = Some (Some mi) \<and>
        filtered c (model_dict mi))"
    show "filtered s (model_dict m)"
    proof (cases "map_of s ''properties''")
      case None
      with ok have m: "m = ParametersSchema (map_of s ''title'') (map_of s ''definitions'')
          i None (extra_fields s)"
        by (simp add: parse_obj_properties.simps)
      show ?thesis unfolding m
        by (rule filtered_assemble [OF items]) (simp add: None)
    next
      case (Some v)
      show ?thesis
      proof (cases v)
        case JNull
        with ok Some have m: "m = ParametersSchema (map_of s ''title'') (map_of s ''definitions'')
          i (Some None) (extra_fields s)"
          by (simp add: parse_obj_properties.simps)
        show ?thesis unfolding m
          by (rule filtered_assemble [OF items]) (simp add: Some JNull)
      next
        case (JDict qs)
        with ok Some obtain ms where ms: "parse_properties qs = Inr ms"
          and m: "m = ParametersSchema (map_of s ''title'') (map_of s ''definitions'')
            i (Some (Some ms)) (extra_fields s)"
          by (auto simp add: parse_obj_properties.simps split: sum.splits)
        from "2.IH" [OF Some JDict] ms
        have "dom (map_of (properties_dict ms)) = dom (map_of qs) \<and>
          (\<forall>n q. map_of qs n = Some q \<longrightarrow>
            (\<exists>c c'. q = JDict c \<and> map_of (properties_dict ms) n = Some (JDict c') \<and>
               filtered c c'))" by blast
        then show ?thesis unfolding m
          by (intro filtered_assemble [OF items]) (simp add: Some JDict)
      qed (use ok Some in \<open>simp_all add: parse_obj_properties.simps\<close>)
    qed
  qed
next
  case 3
  show ?case by simp
next
  case (4 n v rest)
  show ?case
  proof (intro allI impI)
    fix ms
    assume ok: "parse_properties ((n, v) # rest) = Inr ms"
    then obtain c where v: "v = JDict c" by (cases v) simp_all
    with ok obtain mc ms' where mc: "parse_obj c = Inr mc"
      and ms': "parse_properties rest = Inr ms'" and ms: "ms = (n, mc) # ms'"
      by (auto split: sum.splits)
    from "4.IH"(1) [OF v] mc have f: "filtered c (model_dict mc)" by blast
    from "4.IH"(2) [OF v mc] ms'
    have r: "dom (map_of (properties_dict ms')) = dom (map_of rest) \<and>
     (\<forall>n q. map_of rest n = Some q \<longrightarrow>
        (\<exists>c c'. q = JDict c \<and> map_of (properties_dict ms') n = Some (JDict c') \<and>
           filtered c c'))" by blast
    show "dom (map_of (properties_dict ms)) = dom (map_of ((n, v) # rest)) \<and>
     (\<forall>k q. map_of ((n, v) # rest) k = Some q \<longrightarrow>
        (\<exists>c c'. q = JDict c \<and> map_of (properties_dict ms) k = Some (JDict c') \<and>
           filtered c c'))"
      using r f by (auto simp add: ms v)
  qed
qed

lemma parse_properties_total:
  "\<forall>n p. (n, p) \<in> set ps \<longrightarrow> (\<exists>d m. p = JDict d \<and> parse_obj d = Inr m) \<Longrightarrow>
   \<exists>ms. parse_properties ps = Inr ms"
proof (induction ps)
  case Nil
  show ?case by simp
next
  case (Cons a ps)
  obtain n p where a: "a = (n, p)" by (cases a)
  from Cons.prems a have "\<exists>d m. p = JDict d \<and> parse_obj d = Inr m"
    by (simp add: all_conj_distrib)
  then obtain d m where p: "p = JDict d" and m: "parse_obj d = Inr m"
    by blast
  from Cons.prems have "\<forall>n p. (n, p) \<in> set ps \<longrightarrow> (\<exists>d m. p = JDict d \<and> parse_obj d = Inr m)"
    by simp
  with Cons.IH obtain ms where "parse_properties ps = Inr ms" by blast
  with a p m show ?case by simp
qed

lemma parse_obj_total: "declared_shape s \<Longrightarrow> \<exists>m. parse_obj s = Inr m"
proof (induction s rule: declared_shape.induct)
  case (declared_shape_level s)
  from declared_shape_level(1)
  have title: "(case map_of s ''title'' of None \<Rightarrow> True | Some t \<Rightarrow> str_field_ok t)"
    by (simp split: option.splits)
  have props: "\<exists>m. parse_obj_properties s i = Inr m" for i
  proof (cases "map_of s ''properties''")
    case None
    then show ?thesis by (simp add: parse_obj_properties.simps)
  next
    case (Some v)
    with declared_shape_level(3) consider "v = JNull"
      | ps where "v = JDict ps"
          "\<forall>n p. (n, p) \<in> set ps \<longrightarrow> (\<exists>d m. p = JDict d \<and> parse_obj d = Inr m)"
      by blast
    then show ?thesis
    proof cases
      case 1
      with Some show ?thesis by (simp add: parse_obj_properties.simps)
    next
      case 2
      from parse_properties_total [OF 2(2)] obtain ms where "parse_properties ps = Inr ms" ..
      with Some 2(1) show ?thesis by (simp add: parse_obj_properties.simps)
    qed
  qed
  show ?case
  proof (cases "map_of s ''items''")
    case None
    with title props [of None] show ?thesis by (subst parse_obj.simps) simp
  next
    case (Some v)
    with declared_shape_level(2) consider "v = JNull"
      | d m where "v = JDict d" "parse_obj d = Inr m"
      by blast
    then show ?thesis
    proof cases
      case 1
      with Some title props [of "Some None"] show ?thesis by (subst parse_obj.simps) simp
    next
      case 2
      with Some title props [of "Some (Some m)"] show ?thesis
        by (subst parse_obj.simps) simp
    qed
  qed
qed

text \<open>
  C2. The claim as stated, the filter returns a filtered schema for every flattened
  schema, does not hold of a schema whose \<^verbatim>\<open>items\<close> is not a schema: the class
  declares \<^verbatim>\<open>items\<close> as an optional nested model (line 90), and a list of schemas
  there, as the schema of a fixed-length tuple has it, does not validate.
\<close>

theorem tuple_items_rejected:
  "\<not> (\<forall>flat. replace_all_ofs flat = Inr flat \<longrightarrow>
        (\<exists>out. get_parameters_from_schema Inr flat = Inr out \<and> filtered flat out))"
proof
  assume "\<forall>flat. replace_all_ofs flat = Inr flat \<longrightarrow>
        (\<exists>out. get_parameters_from_schema Inr flat = Inr out \<and> filtered flat out)"
  then have "replace_all_ofs
      [(''type'', JStr ''array''),
       (''items'', JList [JDict [(''type'', JStr ''integer'')],
                          JDict [(''type'', JStr ''string'')]])] =
    Inr [(''type'', JStr ''array''),
       (''items'', JList [JDict [(''type'', JStr ''integer'')],
                          JDict [(''type'', JStr ''string'')]])] \<longrightarrow>
    (\<exists>out. get_parameters_from_schema Inr
      [(''type'', JStr ''array''),
       (''items'', JList [JDict [(''type'', JStr ''integer'')],
                          JDict [(''type'', JStr ''string'')]])] = Inr out \<and>
     filtered
      [(''type'', JStr ''array''),
       (''items'', JList [JDict [(''type'', JStr ''integer'')],
                          JDict [(''type'', JStr ''string'')]])] out)"
    by (rule spec)
  then show False
    by (simp add: get_parameters_from_schema_def parse_obj.simps)
qed

text \<open>
  C2, amended. For every schema that has been dereferenced and flattened and has the
  shape the class declares, the filter returns a schema in which \<^verbatim>\<open>title\<close> and
  \<^verbatim>\<open>definitions\<close> are gone at the top level and at every nested
  \<^verbatim>\<open>items\<close> and \<^verbatim>\<open>properties\<close> level, every other key of the input keeps its value
  at every such level, and no key appears that the input does not have.
\<close>

theorem parameters_filtered:
  "dereference_refs schema = Inr schema1 \<Longrightarrow>
   replace_all_ofs schema1 = Inr flat \<Longrightarrow>
   declared_shape flat \<Longrightarrow>
   \<exists>out. get_parameters_from_schema dereference_refs schema = Inr out \<and> filtered flat out"
proof -
  assume d: "dereference_refs schema = Inr schema1"
    and f: "replace_all_ofs schema1 = Inr flat"
    and shape: "declared_shape flat"
  from parse_obj_total [OF shape] obtain m where m: "parse_obj flat = Inr m" ..
  with parse_filtered(1) [of flat] have "filtered flat (model_dict m)" by blast
  moreover from d f m have "get_parameters_from_schema dereference_refs schema = Inr (model_dict m)"
    by (simp add: get_parameters_from_schema_def)
  ultimately show ?thesis by blast
qed

lemma declared_shape_leaf:
  "map_of s ''items'' = None \<Longrightarrow> map_of s ''properties'' = None \<Longrightarrow>
   \<forall>t. map_of s ''title'' = Some t \<longrightarrow> str_field_ok t \<Longrightarrow> declared_shape s"
  by (rule declared_shape_level) simp_all

theorem parameters_filtered_witness:
  "replace_all_ofs
     [(''title'', JStr ''Order''), (''type'', JStr ''object''),
      (''properties'', JDict
         [(''lines'', JDict [(''title'', JStr ''Lines''), (''type'', JStr ''array''),
                            (''items'', JDict [(''title'', JStr ''Line''),
                                              (''type'', JStr ''string'')])])]),
      (''required'', JList [JStr ''lines'']),
      (''definitions'', JDict [])] =
   Inr [(''title'', JStr ''Order''), (''type'', JStr ''object''),
      (''properties'', JDict
         [(''lines'', JDict [(''title'', JStr ''Lines''), (''type'', JStr ''array''),
                            (''items'', JDict [(''title'', JStr ''Line''),
                                              (''type'', JStr ''string'')])])]),
      (''required'', JList [JStr ''lines'']),
      (''definitions'', JDict [])] \<and>
   declared_shape
     [(''title'', JStr ''Order''), (''type'', JStr ''object''),
      (''properties'', JDict
         [(''lines'', JDict [(''title'', JStr ''Lines''), (''type'', JStr ''array''),
                            (''items'', JDict [(''title'', JStr ''Line''),
                                              (''type'', JStr ''string'')])])]),
      (''required'', JList [JStr ''lines'']),
      (''definitions'', JDict [])] \<and>
   get_parameters_from_schema Inr
     [(''title'', JStr ''Order''), (''type'', JStr ''object''),
      (''properties'', JDict
         [(''lines'', JDict [(''title'', JStr ''Lines''), (''type'', JStr ''array''),
                            (''items'', JDict [(''title'', JStr ''Line''),
                                              (''type'', JStr ''string'')])])]),
      (''required'', JList [JStr ''lines'']),
      (''definitions'', JDict [])] =
   Inr [(''properties'', JDict
         [(''lines'', JDict [(''items'', JDict [(''type'', JStr ''string'')]),
                            (''type'', JStr ''array'')])]),
        (''type'', JStr ''object''),
        (''required'', JList [JStr ''lines''])] \<and>
   filtered
     [(''title'', JStr ''Order''), (''type'', JStr ''object''),
      (''properties'', JDict
         [(''lines'', JDict [(''title'', JStr ''Lines''), (''type'', JStr ''array''),
                            (''items'', JDict [(''title'', JStr ''Line''),
                                              (''type'', JStr ''string'')])])]),
      (''required'', JList [JStr ''lines'']),
      (''definitions'', JDict [])]
     [(''properties'', JDict
         [(''lines'', JDict [(''items'', JDict [(''type'', JStr ''string'')]),
                            (''type'', JStr ''array'')])]),
      (''type'', JStr ''object''),
      (''required'', JList [JStr ''lines''])]"
proof -
  let ?line = "[(''title'', JStr ''Line''), (''type'', JStr ''string'')]"
  let ?lines = "[(''title'', JStr ''Lines''), (''type'', JStr ''array''), (''items'', JDict ?line)]"
  let ?s = "[(''title'', JStr ''Order''), (''type'', JStr ''object''),
      (''properties'', JDict [(''lines'', JDict ?lines)]),
      (''required'', JList [JStr ''lines'']),
      (''definitions'', JDict [])]"
  let ?out = "[(''properties'', JDict
         [(''lines'', JDict [(''items'', JDict [(''type'', JStr ''string'')]),
                            (''type'', JStr ''array'')])]),
        (''type'', JStr ''object''),
        (''required'', JList [JStr ''lines''])]"
  have flat: "replace_all_ofs ?s = Inr ?s" by simp
  have line: "declared_shape ?line" by (rule declared_shape_leaf) simp_all
  have lines: "declared_shape ?lines" by (rule declared_shape_level) (simp_all add: line)
  have shape: "declared_shape ?s" by (rule declared_shape_level) (simp_all add: lines)
  have run: "get_parameters_from_schema Inr ?s = Inr ?out"
    by (simp add: get_parameters_from_schema_def parse_obj.simps parse_obj_properties.simps
        extra_fields_def declared_fields_def)
  from parameters_filtered [of Inr ?s ?s ?s, OF refl flat shape] run
  have "filtered ?s ?out" by simp
  with flat shape run show ?thesis by blast
qed

end
